theory Spec2Isabelle
  imports Main "HOL-Library.Word"
begin

unbundle bit_operations_syntax

section \<open>The compilation job descriptor of src/codegen/optimized-compilation-info.h\<close>

text \<open>
  The header declares the class \<open>OptimizedCompilationInfo\<close>: its flag enumeration, the
  macro-generated flag accessors, the inline accessors and the data members with their
  default member initialisers. The embedding below follows the header member by member.
  Pointers, handles and \<open>std::unique_ptr\<close>s are addresses (\<open>nat\<close>), with \<open>None\<close> for the
  null pointer, so that equality of two of them is reference identity.
\<close>

subsection \<open>Types the header uses and does not declare\<close>

text \<open>
  Modelled from the spec: \<open>Code::Kind\<close> (src/objects/code.h is absent). The spec lists
  the code kind as one of OptimizedFunction, WasmFunction, or another stub or builtin
  kind; the header names \<open>OPTIMIZED_FUNCTION\<close> and \<open>WASM_FUNCTION\<close>. Every other
  enumerator is \<open>OTHER_KIND n\<close>.
\<close>

datatype CodeKind = OPTIMIZED_FUNCTION | WASM_FUNCTION | OTHER_KIND nat

text \<open>
  Modelled from the spec: \<open>BailoutReason\<close> (src/codegen/bailout-reason.h is absent).
  The header names \<open>kNoReason\<close>, the default; every other reason is \<open>kReason n\<close>.
\<close>

datatype BailoutReason = kNoReason | kReason nat

text \<open>
  Modelled from the spec: \<open>BailoutId\<close> (src/utils/utils.h is absent). The spec: the OSR
  offset has a distinguished "none" value meaning "not an OSR compile". \<open>BailoutNone\<close> is
  \<open>BailoutId::None()\<close>, and \<open>IsNone\<close> tests for it.
\<close>

datatype BailoutId = BailoutNone | BailoutAt int

definition IsNone :: "BailoutId \<Rightarrow> bool" where
  "IsNone b = (b = BailoutNone)"

text \<open>
  Modelled from the spec: \<open>PoisoningMitigationLevel\<close> (src/common/globals.h is absent).
  The header names \<open>kDontPoison\<close>, the default.
\<close>

datatype PoisoningMitigationLevel = kDontPoison | kPoisonLevel nat

type_synonym Handle = "nat option"
type_synonym SourcePosition = nat

text \<open>
  Modelled from the spec: \<open>InliningPosition\<close> (src/codegen/source-position.h is absent):
  a source position and the integer id assigned at registration time. The id is a C++
  \<open>int\<close>.
\<close>

record InliningPosition =
  pos :: SourcePosition
  inlined_function_id :: int

subsection \<open>The flag enumeration\<close>

text \<open>The list \<open>FLAGS(V)\<close>, lines 49 to 72: one constructor per entry, in the list's order.\<close>

datatype Flag =
    kFunctionContextSpecializing
  | kInlining
  | kDisableFutureOptimization
  | kSplitting
  | kSourcePositions
  | kBailoutOnUninitialized
  | kLoopPeeling
  | kUntrustedCodeMitigations
  | kSwitchJumpTable
  | kCalledWithCodeStartRegister
  | kPoisonRegisterArguments
  | kAllocationFolding
  | kAnalyzeEnvironmentLiveness
  | kTraceTurboJson
  | kTraceTurboGraph
  | kTraceTurboScheduled
  | kTraceTurboAllocation
  | kTraceHeapBroker
  | kWasmRuntimeExceptionSupport
  | kTurboControlFlowAwareAllocation
  | kTurboPreprocessRanges
  | kConcurrentInlining
  | kNativeContextIndependent

text \<open>The third column of \<open>FLAGS(V)\<close>.\<close>

fun Bit :: "Flag \<Rightarrow> nat" where
  "Bit kFunctionContextSpecializing = 0"
| "Bit kInlining = 1"
| "Bit kDisableFutureOptimization = 2"
| "Bit kSplitting = 3"
| "Bit kSourcePositions = 4"
| "Bit kBailoutOnUninitialized = 5"
| "Bit kLoopPeeling = 6"
| "Bit kUntrustedCodeMitigations = 7"
| "Bit kSwitchJumpTable = 8"
| "Bit kCalledWithCodeStartRegister = 9"
| "Bit kPoisonRegisterArguments = 10"
| "Bit kAllocationFolding = 11"
| "Bit kAnalyzeEnvironmentLiveness = 12"
| "Bit kTraceTurboJson = 13"
| "Bit kTraceTurboGraph = 14"
| "Bit kTraceTurboScheduled = 15"
| "Bit kTraceTurboAllocation = 16"
| "Bit kTraceHeapBroker = 17"
| "Bit kWasmRuntimeExceptionSupport = 18"
| "Bit kTurboControlFlowAwareAllocation = 19"
| "Bit kTurboPreprocessRanges = 20"
| "Bit kConcurrentInlining = 21"
| "Bit kNativeContextIndependent = 22"

text \<open>
  \<open>enum Flag { k##Camel = 1 << Bit, ... }\<close>: the enumerator's value, as the 32-bit
  \<open>unsigned\<close> that \<open>flags_\<close> is combined with.
\<close>

definition flag_value :: "Flag \<Rightarrow> 32 word" where
  "flag_value f = push_bit (Bit f) 1"

definition all_flags :: "Flag list" where
  "all_flags =
    [kFunctionContextSpecializing, kInlining, kDisableFutureOptimization, kSplitting,
     kSourcePositions, kBailoutOnUninitialized, kLoopPeeling, kUntrustedCodeMitigations,
     kSwitchJumpTable, kCalledWithCodeStartRegister, kPoisonRegisterArguments,
     kAllocationFolding, kAnalyzeEnvironmentLiveness, kTraceTurboJson, kTraceTurboGraph,
     kTraceTurboScheduled, kTraceTurboAllocation, kTraceHeapBroker,
     kWasmRuntimeExceptionSupport, kTurboControlFlowAwareAllocation,
     kTurboPreprocessRanges, kConcurrentInlining, kNativeContextIndependent]"

subsection \<open>The data members\<close>

text \<open>\<open>struct InlinedFunctionHolder\<close>, lines 184 to 196.\<close>

record InlinedFunctionHolder =
  shared_info :: Handle
  bytecode_array :: Handle
  position :: InliningPosition

text \<open>
  The private data members, lines 238 to 292, in the header's order. \<open>flags_\<close> and
  \<open>inlined_bytecode_size_\<close> are \<open>unsigned\<close>, 32 bits wide. A record field cannot end
  in an underscore, so the member \<open>flags_\<close> is the field \<open>flags_'\<close>, and so on.
\<close>

record OptimizedCompilationInfo =
  flags_' :: "32 word"
  poisoning_level_' :: PoisoningMitigationLevel
  code_kind_' :: CodeKind
  builtin_index_' :: int
  bytecode_array_' :: Handle
  shared_info_' :: Handle
  closure_' :: Handle
  code_' :: Handle
  profiler_data_' :: "nat option"
  wasm_compilation_result_' :: "nat option"
  osr_offset_' :: BailoutId
  zone_' :: nat
  persistent_handles_' :: "nat option"
  bailout_reason_' :: BailoutReason
  inlined_functions_' :: "InlinedFunctionHolder list"
  optimization_id_' :: int
  inlined_bytecode_size_' :: "32 word"
  osr_frame_' :: "nat option"
  debug_name_' :: string
  trace_turbo_filename_' :: "string option"
  tick_counter_' :: nat
  ph_' :: "nat option"

definition kNoOptimizationId :: int where
  "kNoOptimizationId = - 1"

text \<open>
  The state the default member initialisers give a descriptor. The members the header
  leaves to the constructors (the \<open>const\<close> members \<open>code_kind_\<close>, \<open>zone_\<close> and
  \<open>optimization_id_\<close>, the handles of the function and the debug name) are arguments.
\<close>

definition member_initializers ::
  "CodeKind \<Rightarrow> nat \<Rightarrow> int \<Rightarrow> Handle \<Rightarrow> Handle \<Rightarrow> Handle \<Rightarrow> string
    \<Rightarrow> OptimizedCompilationInfo" where
  "member_initializers kind zone opt_id bytecode shared closure name =
    \<lparr> flags_' = 0,
      poisoning_level_' = kDontPoison,
      code_kind_' = kind,
      builtin_index_' = - 1,
      bytecode_array_' = bytecode,
      shared_info_' = shared,
      closure_' = closure,
      code_' = None,
      profiler_data_' = None,
      wasm_compilation_result_' = None,
      osr_offset_' = BailoutNone,
      zone_' = zone,
      persistent_handles_' = None,
      bailout_reason_' = kNoReason,
      inlined_functions_' = [],
      optimization_id_' = opt_id,
      inlined_bytecode_size_' = 0,
      osr_frame_' = None,
      debug_name_' = name,
      trace_turbo_filename_' = None,
      tick_counter_' = 0,
      ph_' = None \<rparr>"

subsection \<open>Debug assertions\<close>

text \<open>
  \<open>FlagGetIsValid\<close> and \<open>FlagSetIsValid\<close> are declared under \<open>#ifdef DEBUG\<close> (lines 96
  to 99) and their bodies are not in the header, so a build is described by whether
  \<open>DEBUG\<close> is defined and by the two validity predicates, which are member functions and
  read the descriptor.
\<close>

record build =
  DEBUG :: bool
  FlagGetIsValid :: "Flag \<Rightarrow> OptimizedCompilationInfo \<Rightarrow> bool"
  FlagSetIsValid :: "Flag \<Rightarrow> OptimizedCompilationInfo \<Rightarrow> bool"

datatype error = DCheckFailed

text \<open>
  Modelled from the spec: the macro \<open>DCHECK\<close> (src/base/logging.h is absent). The spec:
  a contract violation is asserted or aborted in debug builds and is not checked in a
  release build. The validity predicates the macro is applied to exist under
  \<open>#ifdef DEBUG\<close> only, so a release build cannot evaluate the condition: the check is
  compiled out there and the statements after it run.
\<close>

definition DCHECK :: "build \<Rightarrow> bool \<Rightarrow> error + unit" where
  "DCHECK b c = (if DEBUG b \<and> \<not> c then Inl DCheckFailed else Inr ())"

subsection \<open>Flag accessors\<close>

text \<open>Lines 232 and 233.\<close>

definition SetFlag :: "Flag \<Rightarrow> OptimizedCompilationInfo \<Rightarrow> OptimizedCompilationInfo" where
  "SetFlag flag d = d\<lparr>flags_' := flags_' d OR flag_value flag\<rparr>"

definition GetFlag :: "Flag \<Rightarrow> OptimizedCompilationInfo \<Rightarrow> bool" where
  "GetFlag flag d = (flags_' d AND flag_value flag \<noteq> 0)"

text \<open>
  The macros \<open>DEF_GETTER\<close> and \<open>DEF_SETTER\<close>, lines 80 to 94, generate one getter
  \<open>Lower()\<close> and one setter \<open>set_Lower()\<close> per flag; here the flag is an argument.
\<close>

definition DEF_GETTER :: "build \<Rightarrow> Flag \<Rightarrow> OptimizedCompilationInfo \<Rightarrow> error + bool" where
  "DEF_GETTER b flag d =
    (case DCHECK b (FlagGetIsValid b flag d) of
       Inl e \<Rightarrow> Inl e
     | Inr _ \<Rightarrow> Inr (GetFlag flag d))"

definition DEF_SETTER ::
  "build \<Rightarrow> Flag \<Rightarrow> OptimizedCompilationInfo \<Rightarrow> error + OptimizedCompilationInfo" where
  "DEF_SETTER b flag d =
    (case DCHECK b (FlagSetIsValid b flag d) of
       Inl e \<Rightarrow> Inl e
     | Inr _ \<Rightarrow> Inr (SetFlag flag d))"

subsection \<open>Inline accessors\<close>

text \<open>Line 113.\<close>

definition is_osr :: "OptimizedCompilationInfo \<Rightarrow> bool" where
  "is_osr d = (\<not> IsNone (osr_offset_' d))"

text \<open>Lines 150 to 155.\<close>

definition IsOptimizing :: "OptimizedCompilationInfo \<Rightarrow> bool" where
  "IsOptimizing d = (code_kind_' d = OPTIMIZED_FUNCTION)"

definition IsWasm :: "OptimizedCompilationInfo \<Rightarrow> bool" where
  "IsWasm d = (code_kind_' d = WASM_FUNCTION)"

definition IsNotOptimizedFunctionOrWasmFunction :: "OptimizedCompilationInfo \<Rightarrow> bool" where
  "IsNotOptimizedFunctionOrWasmFunction d =
    (code_kind_' d \<noteq> OPTIMIZED_FUNCTION \<and> code_kind_' d \<noteq> WASM_FUNCTION)"

text \<open>Lines 156 to 160.\<close>

definition SetOptimizingForOsr ::
  "build \<Rightarrow> BailoutId \<Rightarrow> nat option \<Rightarrow> OptimizedCompilationInfo
    \<Rightarrow> error + OptimizedCompilationInfo" where
  "SetOptimizingForOsr b osr_offset osr_frame d =
    (case DCHECK b (IsOptimizing d) of
       Inl e \<Rightarrow> Inl e
     | Inr _ \<Rightarrow> Inr (d\<lparr>osr_offset_' := osr_offset, osr_frame_' := osr_frame\<rparr>))"

text \<open>Line 171.\<close>

definition bailout_reason :: "OptimizedCompilationInfo \<Rightarrow> BailoutReason" where
  "bailout_reason d = bailout_reason_' d"

text \<open>Lines 173 to 176.\<close>

definition optimization_id :: "build \<Rightarrow> OptimizedCompilationInfo \<Rightarrow> error + int" where
  "optimization_id b d =
    (case DCHECK b (IsOptimizing d) of
       Inl e \<Rightarrow> Inl e
     | Inr _ \<Rightarrow> Inr (optimization_id_' d))"

text \<open>
  Lines 225 to 227: \<open>return std::move(ph_)\<close> hands the pointer out and leaves the
  member null. There is no assertion.
\<close>

definition DetachPersistentHandles ::
  "OptimizedCompilationInfo \<Rightarrow> nat option \<times> OptimizedCompilationInfo" where
  "DetachPersistentHandles d = (ph_' d, d\<lparr>ph_' := None\<rparr>)"

subsection \<open>Inline mutators\<close>

text \<open>Lines 122, 126 to 128, 135, 180 to 182, 214 to 216 and 221 to 223: plain assignments.\<close>

definition set_builtin_index :: "int \<Rightarrow> OptimizedCompilationInfo \<Rightarrow> OptimizedCompilationInfo" where
  "set_builtin_index index d = d\<lparr>builtin_index_' := index\<rparr>"

definition SetPoisoningMitigationLevel ::
  "PoisoningMitigationLevel \<Rightarrow> OptimizedCompilationInfo \<Rightarrow> OptimizedCompilationInfo" where
  "SetPoisoningMitigationLevel poisoning_level d = d\<lparr>poisoning_level_' := poisoning_level\<rparr>"

definition SetCode :: "Handle \<Rightarrow> OptimizedCompilationInfo \<Rightarrow> OptimizedCompilationInfo" where
  "SetCode code d = d\<lparr>code_' := code\<rparr>"

definition set_inlined_bytecode_size ::
  "32 word \<Rightarrow> OptimizedCompilationInfo \<Rightarrow> OptimizedCompilationInfo" where
  "set_inlined_bytecode_size size' d = d\<lparr>inlined_bytecode_size_' := size'\<rparr>"

definition set_trace_turbo_filename ::
  "string option \<Rightarrow> OptimizedCompilationInfo \<Rightarrow> OptimizedCompilationInfo" where
  "set_trace_turbo_filename filename d = d\<lparr>trace_turbo_filename_' := filename\<rparr>"

definition set_profiler_data ::
  "nat option \<Rightarrow> OptimizedCompilationInfo \<Rightarrow> OptimizedCompilationInfo" where
  "set_profiler_data profiler_data d = d\<lparr>profiler_data_' := profiler_data\<rparr>"

text \<open>
  \<open>static_cast<int>\<close> of a \<open>size_t\<close>: the value modulo \<open>2 ^ 32\<close>, read as a signed 32-bit
  integer.
\<close>

definition static_cast_int :: "nat \<Rightarrow> int" where
  "static_cast_int n = sint (word_of_nat n :: 32 word)"

text \<open>Lines 193 to 195.\<close>

definition RegisterInlinedFunctionId ::
  "nat \<Rightarrow> InlinedFunctionHolder \<Rightarrow> InlinedFunctionHolder" where
  "RegisterInlinedFunctionId inlined_function_id' h =
    h\<lparr>position := (position h)\<lparr>inlined_function_id := static_cast_int inlined_function_id'\<rparr>\<rparr>"

subsection \<open>Member functions whose bodies are not in the header\<close>

text \<open>
  Modelled from the spec: \<open>AbortOptimization\<close> (declared at line 167; the body is in
  src/codegen/optimized-compilation-info.cc, which is absent). The spec: it records the
  reason; if the job is an optimizing-function job, it additionally raises the "disable
  future optimization" flag.
\<close>

definition AbortOptimization ::
  "BailoutReason \<Rightarrow> OptimizedCompilationInfo \<Rightarrow> OptimizedCompilationInfo" where
  "AbortOptimization reason d =
    (let d' = d\<lparr>bailout_reason_' := reason\<rparr>
     in if IsOptimizing d' then SetFlag kDisableFutureOptimization d' else d')"

text \<open>
  Modelled from the spec: \<open>RetryOptimization\<close> (declared at line 169; the body is
  absent). The spec: it records the reason but does not disable future optimization;
  whether a retry is legal is the caller's policy and is not enforced internally.
\<close>

definition RetryOptimization ::
  "BailoutReason \<Rightarrow> OptimizedCompilationInfo \<Rightarrow> OptimizedCompilationInfo" where
  "RetryOptimization reason d = d\<lparr>bailout_reason_' := reason\<rparr>"

text \<open>
  Modelled from the spec: \<open>set_persistent_handles\<close> (declared at lines 162 and 163; the
  body is absent). The spec: it installs an exclusively-owned reference bundle into the
  descriptor and fails, as a programmer error, if one is already installed; the bundle
  installed is the one \<open>detachBundle\<close> later moves out. The header has two members of
  the bundle's type, \<open>persistent_handles_\<close> and \<open>ph_\<close>, and \<open>DetachPersistentHandles\<close>
  moves out \<open>ph_\<close>, so the bundle is installed in \<open>ph_\<close>.
\<close>

definition set_persistent_handles ::
  "build \<Rightarrow> nat option \<Rightarrow> OptimizedCompilationInfo \<Rightarrow> error + OptimizedCompilationInfo" where
  "set_persistent_handles b persistent_handles d =
    (case DCHECK b (ph_' d = None) of
       Inl e \<Rightarrow> Inl e
     | Inr _ \<Rightarrow> Inr (d\<lparr>ph_' := persistent_handles\<rparr>))"

text \<open>
  Modelled from the spec: the constructor of \<open>InlinedFunctionHolder\<close> (declared at lines
  189 to 191; the body is absent). It stores its three arguments. The spec: the id is
  assigned at registration time; until then it is \<open>- 1\<close> here, a value that is
  overwritten before it is read.
\<close>

definition InlinedFunctionHolder_new ::
  "Handle \<Rightarrow> Handle \<Rightarrow> SourcePosition \<Rightarrow> InlinedFunctionHolder" where
  "InlinedFunctionHolder_new inlined_shared_info inlined_bytecode p =
    \<lparr> shared_info = inlined_shared_info,
      bytecode_array = inlined_bytecode,
      position = \<lparr> pos = p, inlined_function_id = - 1 \<rparr> \<rparr>"

text \<open>
  Modelled from the spec: \<open>AddInlinedFunction\<close> (declared at lines 202 to 204; the body
  is absent). The spec: it appends a new holder, assigns it the next sequential id (the
  list size before the append), and returns that id. The id is assigned with
  \<open>RegisterInlinedFunctionId\<close> and returned as the \<open>int\<close> the declaration gives.
\<close>

definition AddInlinedFunction ::
  "Handle \<Rightarrow> Handle \<Rightarrow> SourcePosition \<Rightarrow> OptimizedCompilationInfo
    \<Rightarrow> int \<times> OptimizedCompilationInfo" where
  "AddInlinedFunction inlined_function inlined_bytecode p d =
    (let id' = length (inlined_functions_' d);
         h = RegisterInlinedFunctionId id'
               (InlinedFunctionHolder_new inlined_function inlined_bytecode p)
     in (static_cast_int id', d\<lparr>inlined_functions_' := inlined_functions_' d @ [h]\<rparr>))"

text \<open>
  Modelled from the spec: \<open>SetWasmCompilationResult\<close> and \<open>ReleaseWasmCompilationResult\<close>
  (declared at lines 137 and 138; the bodies are absent). The spec: they hold an
  exclusively-owned alternate-backend result; release transfers ownership out.
\<close>

definition SetWasmCompilationResult ::
  "nat option \<Rightarrow> OptimizedCompilationInfo \<Rightarrow> OptimizedCompilationInfo" where
  "SetWasmCompilationResult r d = d\<lparr>wasm_compilation_result_' := r\<rparr>"

definition ReleaseWasmCompilationResult ::
  "OptimizedCompilationInfo \<Rightarrow> nat option \<times> OptimizedCompilationInfo" where
  "ReleaseWasmCompilationResult d =
    (wasm_compilation_result_' d, d\<lparr>wasm_compilation_result_' := None\<rparr>)"

subsection \<open>Construction\<close>

text \<open>
  Modelled from the spec: \<open>ConfigureFlags\<close> (declared at line 230; the body is absent).
  The spec: a single step, invoked once at construction, seeds the initial flag values
  from the process-wide compiler configuration, which is the list of flags to raise.
\<close>

definition ConfigureFlags :: "Flag list \<Rightarrow> OptimizedCompilationInfo \<Rightarrow> OptimizedCompilationInfo" where
  "ConfigureFlags config d = fold SetFlag config d"

text \<open>
  Modelled from the spec: the constructor for stub compilation, Wasm and testing
  (declared at lines 107 and 108; the body is absent). The spec: "compile a stub or
  module" mode takes a debug name, the zone and the code kind; it holds no function and
  its id is the sentinel. It starts from the default member initialisers and derives the
  flags. The constructor for optimized compilation (lines 102 to 105) takes its id from
  the runtime instance, of which neither the header nor the spec says how it produces
  ids; it is not modelled.
\<close>

definition new_for_stub ::
  "Flag list \<Rightarrow> string \<Rightarrow> nat \<Rightarrow> CodeKind \<Rightarrow> OptimizedCompilationInfo" where
  "new_for_stub config debug_name zone code_kind =
    ConfigureFlags config
      (member_initializers code_kind zone kNoOptimizationId None None None debug_name)"

subsection \<open>Sequences of calls\<close>

text \<open>
  The public mutators of the class, as one operation each. \<open>ReopenHandlesInNewHandleScope\<close>
  (its body is absent) rebinds handles to a handle scope, which is not part of this
  model, and is left out.
\<close>

datatype operation =
    Op_set_flag Flag
  | Op_set_builtin_index int
  | Op_SetPoisoningMitigationLevel PoisoningMitigationLevel
  | Op_SetCode Handle
  | Op_SetWasmCompilationResult "nat option"
  | Op_ReleaseWasmCompilationResult
  | Op_SetOptimizingForOsr BailoutId "nat option"
  | Op_set_persistent_handles "nat option"
  | Op_AbortOptimization BailoutReason
  | Op_RetryOptimization BailoutReason
  | Op_set_inlined_bytecode_size "32 word"
  | Op_AddInlinedFunction Handle Handle SourcePosition
  | Op_set_trace_turbo_filename "string option"
  | Op_set_profiler_data "nat option"
  | Op_DetachPersistentHandles

text \<open>One call: the descriptor afterwards, or the failed assertion that stopped it.\<close>

fun step :: "build \<Rightarrow> operation \<Rightarrow> OptimizedCompilationInfo \<Rightarrow> error + OptimizedCompilationInfo" where
  "step b (Op_set_flag flag) d = DEF_SETTER b flag d"
| "step b (Op_set_builtin_index index) d = Inr (set_builtin_index index d)"
| "step b (Op_SetPoisoningMitigationLevel l) d = Inr (SetPoisoningMitigationLevel l d)"
| "step b (Op_SetCode code) d = Inr (SetCode code d)"
| "step b (Op_SetWasmCompilationResult r) d = Inr (SetWasmCompilationResult r d)"
| "step b Op_ReleaseWasmCompilationResult d = Inr (snd (ReleaseWasmCompilationResult d))"
| "step b (Op_SetOptimizingForOsr osr_offset osr_frame) d =
    SetOptimizingForOsr b osr_offset osr_frame d"
| "step b (Op_set_persistent_handles p) d = set_persistent_handles b p d"
| "step b (Op_AbortOptimization reason) d = Inr (AbortOptimization reason d)"
| "step b (Op_RetryOptimization reason) d = Inr (RetryOptimization reason d)"
| "step b (Op_set_inlined_bytecode_size size') d = Inr (set_inlined_bytecode_size size' d)"
| "step b (Op_AddInlinedFunction f bc p) d = Inr (snd (AddInlinedFunction f bc p d))"
| "step b (Op_set_trace_turbo_filename filename) d = Inr (set_trace_turbo_filename filename d)"
| "step b (Op_set_profiler_data p) d = Inr (set_profiler_data p d)"
| "step b Op_DetachPersistentHandles d = Inr (snd (DetachPersistentHandles d))"

fun run :: "build \<Rightarrow> operation list \<Rightarrow> OptimizedCompilationInfo \<Rightarrow> error + OptimizedCompilationInfo" where
  "run b [] d = Inr d"
| "run b (op # ops) d = (case step b op d of Inl e \<Rightarrow> Inl e | Inr d' \<Rightarrow> run b ops d')"

text \<open>
  Successive calls of \<open>AddInlinedFunction\<close> on one descriptor: the ids returned, in call
  order, and the descriptor afterwards.
\<close>

fun add_all ::
  "(Handle \<times> Handle \<times> SourcePosition) list \<Rightarrow> OptimizedCompilationInfo
    \<Rightarrow> int list \<times> OptimizedCompilationInfo" where
  "add_all [] d = ([], d)"
| "add_all ((f, bc, p) # calls) d =
    (let (id', d') = AddInlinedFunction f bc p d;
         (ids, d'') = add_all calls d'
     in (id' # ids, d''))"

text \<open>
  The operations whose member functions are defined inline in the header (the others are
  modelled from the spec).
\<close>

fun defined_inline :: "operation \<Rightarrow> bool" where
  "defined_inline (Op_SetWasmCompilationResult _) = False"
| "defined_inline Op_ReleaseWasmCompilationResult = False"
| "defined_inline (Op_set_persistent_handles _) = False"
| "defined_inline (Op_AbortOptimization _) = False"
| "defined_inline (Op_RetryOptimization _) = False"
| "defined_inline (Op_AddInlinedFunction _ _ _) = False"
| "defined_inline _ = True"

text \<open>
  Two builds used as concrete inputs: a debug build and a release build. Their validity
  predicates are an example (the real ones are not in the header): they declare
  \<open>kWasmRuntimeExceptionSupport\<close> valid for Wasm compilations only and every other flag
  valid everywhere.
\<close>

definition debug_build :: build where
  "debug_build =
    \<lparr> DEBUG = True,
      FlagGetIsValid = (\<lambda>flag d. flag \<noteq> kWasmRuntimeExceptionSupport \<or> IsWasm d),
      FlagSetIsValid = (\<lambda>flag d. flag \<noteq> kWasmRuntimeExceptionSupport \<or> IsWasm d) \<rparr>"

definition release_build :: build where
  "release_build = debug_build\<lparr>DEBUG := False\<rparr>"

definition example_info :: OptimizedCompilationInfo where
  "example_info = member_initializers OPTIMIZED_FUNCTION 1 0 (Some 10) (Some 11) (Some 12) []"

definition example_stub :: OptimizedCompilationInfo where
  "example_stub = new_for_stub [] ''Stub123'' 1 (OTHER_KIND 0)"

definition example_attached :: OptimizedCompilationInfo where
  "example_attached = example_info\<lparr>ph_' := Some 7\<rparr>"

text \<open>
  The ledger the spec's words describe after successive registrations on a ledger of
  \<open>k\<close> holders: one holder per call, in call order, each holding the call's arguments
  and the ids \<open>k\<close>, \<open>k + 1\<close>, and so on.
\<close>

fun expected_holders ::
  "nat \<Rightarrow> (Handle \<times> Handle \<times> SourcePosition) list \<Rightarrow> InlinedFunctionHolder list" where
  "expected_holders k [] = []"
| "expected_holders k ((f, bc, p) # calls) =
    \<lparr> shared_info = f, bytecode_array = bc,
      position = \<lparr> pos = p, inlined_function_id = int k \<rparr> \<rparr>
    # expected_holders (Suc k) calls"

text \<open>
  The descriptor after \<open>2 ^ 31\<close> successive calls of \<open>AddInlinedFunction\<close> on a fresh
  descriptor.
\<close>

definition example_full_ledger :: OptimizedCompilationInfo where
  "example_full_ledger = snd (add_all (replicate 2147483648 (None, None, 0)) example_info)"

section \<open>Properties\<close>

subsection \<open>Flag bits\<close>

lemma Bit_le: "Bit f \<le> 22"
  by (cases f) simp_all

lemma nth_all_flags: "all_flags ! Bit f = f"
  by (cases f) (simp_all add: all_flags_def)

lemma Bit_inj: "(Bit f = Bit g) = (f = g)"
proof
  assume "Bit f = Bit g"
  then have "all_flags ! Bit f = all_flags ! Bit g" by simp
  then show "f = g" by (simp add: nth_all_flags)
qed simp

lemma map_Bit_all_flags: "map Bit all_flags = [0..<23]"
  by code_simp

lemma GetFlag_bit: "GetFlag f d = bit (flags_' d) (Bit f)"
  by (simp add: GetFlag_def flag_value_def bit_iff_and_push_bit_not_eq_0)

lemma bit_flag_value: "bit (flag_value f) n = (n = Bit f)"
proof -
  have "Bit f < 32" using Bit_le [of f] by simp
  then show ?thesis
    by (auto simp add: flag_value_def bit_exp_iff)
qed

lemma GetFlag_SetFlag: "GetFlag g (SetFlag f d) = (g = f \<or> GetFlag g d)"
  by (auto simp add: GetFlag_bit SetFlag_def bit_or_iff bit_flag_value Bit_inj)

lemma SetFlag_idem: "SetFlag f (SetFlag f d) = SetFlag f d"
  by (simp add: SetFlag_def)

lemma GetFlag_flags: "flags_' d' = flags_' d \<Longrightarrow> GetFlag g d' = GetFlag g d"
  by (simp add: GetFlag_def)

lemma DEF_GETTER_eq:
  "DEF_GETTER b f d =
    (if DEBUG b \<and> \<not> FlagGetIsValid b f d then Inl DCheckFailed else Inr (GetFlag f d))"
  by (simp add: DEF_GETTER_def DCHECK_def)

lemma DEF_SETTER_eq:
  "DEF_SETTER b f d =
    (if DEBUG b \<and> \<not> FlagSetIsValid b f d then Inl DCheckFailed else Inr (SetFlag f d))"
  by (simp add: DEF_SETTER_def DCHECK_def)

lemma DEF_SETTER_Inr: "DEF_SETTER b f d = Inr d' \<Longrightarrow> d' = SetFlag f d"
  by (simp add: DEF_SETTER_eq split: if_splits)

lemma DEF_GETTER_Inr: "DEF_GETTER b f d = Inr v \<Longrightarrow> v = GetFlag f d"
  by (simp add: DEF_GETTER_eq split: if_splits)

text \<open>
  Claim C10. Setting one flag changes that flag only. The 23 enumerators are the powers
  of two with the exponents 0 to 22, one each, so two distinct flags have distinct bits;
  for distinct flags \<open>F\<close> and \<open>G\<close>, \<open>SetFlag F\<close> leaves \<open>GetFlag G\<close> as it was, and so
  does the setter \<open>set_F\<close> for the value the getter of \<open>G\<close> returns, in whatever build
  both calls pass their checks; setting \<open>F\<close> twice is the same as setting it once.
\<close>

theorem set_flag_changes_only_that_flag:
  "map Bit all_flags = [0..<23]
   \<and> flag_value F = 2 ^ Bit F
   \<and> (F \<noteq> G \<longrightarrow> Bit F \<noteq> Bit G)
   \<and> (F \<noteq> G \<longrightarrow> GetFlag G (SetFlag F d) = GetFlag G d)
   \<and> SetFlag F (SetFlag F d) = SetFlag F d
   \<and> (\<forall>d' v v'. F \<noteq> G \<and> DEF_SETTER b F d = Inr d' \<and> DEF_GETTER b G d = Inr v
        \<and> DEF_GETTER b G d' = Inr v' \<longrightarrow> v' = v)
   \<and> (\<forall>d' d''. DEF_SETTER b F d = Inr d' \<and> DEF_SETTER b F d' = Inr d'' \<longrightarrow> d'' = d')"
proof (intro conjI)
  show "map Bit all_flags = [0..<23]" by (rule map_Bit_all_flags)
  show "flag_value F = 2 ^ Bit F" by (simp add: flag_value_def)
  show "F \<noteq> G \<longrightarrow> Bit F \<noteq> Bit G" by (simp add: Bit_inj)
  show "F \<noteq> G \<longrightarrow> GetFlag G (SetFlag F d) = GetFlag G d"
    by (auto simp add: GetFlag_SetFlag)
  show "SetFlag F (SetFlag F d) = SetFlag F d" by (rule SetFlag_idem)
  show "\<forall>d' v v'. F \<noteq> G \<and> DEF_SETTER b F d = Inr d' \<and> DEF_GETTER b G d = Inr v
        \<and> DEF_GETTER b G d' = Inr v' \<longrightarrow> v' = v"
    by (auto dest!: DEF_SETTER_Inr DEF_GETTER_Inr simp add: GetFlag_SetFlag)
  show "\<forall>d' d''. DEF_SETTER b F d = Inr d' \<and> DEF_SETTER b F d' = Inr d'' \<longrightarrow> d'' = d'"
    by (auto dest!: DEF_SETTER_Inr simp add: SetFlag_idem)
qed

theorem set_flag_changes_only_that_flag_witness:
  "kInlining \<noteq> kSplitting
   \<and> Bit kInlining \<noteq> Bit kSplitting
   \<and> DEF_SETTER debug_build kInlining example_info = Inr (SetFlag kInlining example_info)
   \<and> DEF_GETTER debug_build kSplitting example_info = Inr False
   \<and> DEF_GETTER debug_build kSplitting (SetFlag kInlining example_info) = Inr False
   \<and> DEF_GETTER debug_build kInlining (SetFlag kInlining example_info) = Inr True
   \<and> DEF_SETTER debug_build kInlining (SetFlag kInlining example_info)
       = Inr (SetFlag kInlining example_info)"
  using set_flag_changes_only_that_flag
    [where F = kInlining and G = kSplitting and d = example_info and b = debug_build]
  by (simp add: DEF_SETTER_eq DEF_GETTER_eq debug_build_def GetFlag_SetFlag SetFlag_idem)
    (simp add: GetFlag_def example_info_def member_initializers_def)

subsection \<open>Compilation modes and OSR\<close>

text \<open>
  Claim C9. The three mode predicates are functions of the code kind alone:
  \<open>IsOptimizing\<close> holds exactly for \<open>OPTIMIZED_FUNCTION\<close>, \<open>IsWasm\<close> exactly for
  \<open>WASM_FUNCTION\<close>, so the two never hold together, and
  \<open>IsNotOptimizedFunctionOrWasmFunction\<close> holds exactly when neither does.
\<close>

theorem mode_predicates_partition:
  "IsOptimizing d = (code_kind_' d = OPTIMIZED_FUNCTION)
   \<and> IsWasm d = (code_kind_' d = WASM_FUNCTION)
   \<and> \<not> (IsOptimizing d \<and> IsWasm d)
   \<and> IsNotOptimizedFunctionOrWasmFunction d = (\<not> IsOptimizing d \<and> \<not> IsWasm d)"
proof (intro conjI)
  show "IsOptimizing d = (code_kind_' d = OPTIMIZED_FUNCTION)"
    by (simp add: IsOptimizing_def)
  show "IsWasm d = (code_kind_' d = WASM_FUNCTION)"
    by (simp add: IsWasm_def)
  show "\<not> (IsOptimizing d \<and> IsWasm d)"
    by (auto simp add: IsOptimizing_def IsWasm_def)
  show "IsNotOptimizedFunctionOrWasmFunction d = (\<not> IsOptimizing d \<and> \<not> IsWasm d)"
    by (simp add: IsNotOptimizedFunctionOrWasmFunction_def IsOptimizing_def IsWasm_def)
qed

theorem mode_predicates_partition_witness:
  "IsOptimizing example_info \<and> \<not> IsWasm example_info
   \<and> \<not> IsNotOptimizedFunctionOrWasmFunction example_info
   \<and> \<not> IsOptimizing example_stub \<and> \<not> IsWasm example_stub
   \<and> IsNotOptimizedFunctionOrWasmFunction example_stub"
  using mode_predicates_partition [of example_info] mode_predicates_partition [of example_stub]
  by (simp add: example_info_def example_stub_def new_for_stub_def ConfigureFlags_def
      member_initializers_def)

text \<open>
  Claim C8. \<open>is_osr\<close> is true exactly when the OSR offset is not the "none" value, and a
  descriptor in the state the default member initialisers give it is not an OSR
  compile.
\<close>

theorem is_osr_iff_offset_not_none:
  "is_osr d = (osr_offset_' d \<noteq> BailoutNone)
   \<and> \<not> is_osr (member_initializers kind zone opt_id bytecode shared closure name)"
proof
  show "is_osr d = (osr_offset_' d \<noteq> BailoutNone)"
    by (simp add: is_osr_def IsNone_def)
  have "osr_offset_' (member_initializers kind zone opt_id bytecode shared closure name)
      = BailoutNone"
    by (simp add: member_initializers_def)
  then show "\<not> is_osr (member_initializers kind zone opt_id bytecode shared closure name)"
    by (simp add: is_osr_def IsNone_def)
qed

theorem is_osr_iff_offset_not_none_witness:
  "\<not> is_osr example_info \<and> is_osr (example_info\<lparr>osr_offset_' := BailoutAt 7\<rparr>)"
  using is_osr_iff_offset_not_none
    [where d = "example_info\<lparr>osr_offset_' := BailoutAt 7\<rparr>" and kind = OPTIMIZED_FUNCTION
      and zone = 1 and opt_id = 0 and bytecode = "Some 10" and shared = "Some 11"
      and closure = "Some 12" and name = "[]"]
  by (simp add: example_info_def)

subsection \<open>Calls that assert\<close>

lemma SetOptimizingForOsr_eq:
  "SetOptimizingForOsr b off fr d =
    (if DEBUG b \<and> \<not> IsOptimizing d then Inl DCheckFailed
     else Inr (d\<lparr>osr_offset_' := off, osr_frame_' := fr\<rparr>))"
  by (simp add: SetOptimizingForOsr_def DCHECK_def)

lemma SetOptimizingForOsr_Inr:
  "SetOptimizingForOsr b off fr d = Inr d' \<Longrightarrow> d' = d\<lparr>osr_offset_' := off, osr_frame_' := fr\<rparr>"
  by (simp add: SetOptimizingForOsr_eq split: if_splits)

lemma set_persistent_handles_eq:
  "set_persistent_handles b p d =
    (if DEBUG b \<and> ph_' d \<noteq> None then Inl DCheckFailed else Inr (d\<lparr>ph_' := p\<rparr>))"
  by (simp add: set_persistent_handles_def DCHECK_def)

lemma set_persistent_handles_Inr:
  "set_persistent_handles b p d = Inr d' \<Longrightarrow> d' = d\<lparr>ph_' := p\<rparr>"
  by (simp add: set_persistent_handles_eq split: if_splits)

lemma example_info_fields:
  "code_kind_' example_info = OPTIMIZED_FUNCTION"
  "flags_' example_info = 0"
  "ph_' example_info = None"
  "inlined_functions_' example_info = []"
  "osr_offset_' example_info = BailoutNone"
  by (simp_all add: example_info_def member_initializers_def)

lemma example_stub_fields:
  "code_kind_' example_stub = OTHER_KIND 0"
  "optimization_id_' example_stub = - 1"
  by (simp_all add: example_stub_def new_for_stub_def ConfigureFlags_def
      member_initializers_def kNoOptimizationId_def)

lemma build_fields:
  "DEBUG debug_build" "\<not> DEBUG release_build"
  "FlagGetIsValid debug_build f d = (f \<noteq> kWasmRuntimeExceptionSupport \<or> IsWasm d)"
  "FlagSetIsValid debug_build f d = (f \<noteq> kWasmRuntimeExceptionSupport \<or> IsWasm d)"
  "FlagGetIsValid release_build f d = (f \<noteq> kWasmRuntimeExceptionSupport \<or> IsWasm d)"
  "FlagSetIsValid release_build f d = (f \<noteq> kWasmRuntimeExceptionSupport \<or> IsWasm d)"
  by (simp_all add: debug_build_def release_build_def)

text \<open>
  Claim C7. \<open>SetOptimizingForOsr\<close> asserts \<open>IsOptimizing\<close>: on a descriptor in "optimize
  a function" mode the assertion cannot fail and the call succeeds, in every build; a
  call that succeeds has set the OSR offset and the OSR frame, both in the one call,
  and nothing else; the call is stopped exactly when a debug build meets a descriptor
  that is not optimizing.
\<close>

theorem SetOptimizingForOsr_sets_both:
  "(IsOptimizing d \<longrightarrow>
      SetOptimizingForOsr b off fr d = Inr (d\<lparr>osr_offset_' := off, osr_frame_' := fr\<rparr>))
   \<and> (SetOptimizingForOsr b off fr d = Inr d' \<longrightarrow>
         osr_offset_' d' = off \<and> osr_frame_' d' = fr
         \<and> d' = d\<lparr>osr_offset_' := off, osr_frame_' := fr\<rparr>)
   \<and> (SetOptimizingForOsr b off fr d = Inl DCheckFailed) = (DEBUG b \<and> \<not> IsOptimizing d)"
proof (intro conjI impI)
  assume "IsOptimizing d"
  then show "SetOptimizingForOsr b off fr d = Inr (d\<lparr>osr_offset_' := off, osr_frame_' := fr\<rparr>)"
    by (simp add: SetOptimizingForOsr_eq)
next
  assume "SetOptimizingForOsr b off fr d = Inr d'"
  then have eq: "d' = d\<lparr>osr_offset_' := off, osr_frame_' := fr\<rparr>"
    by (rule SetOptimizingForOsr_Inr)
  show "osr_offset_' d' = off" by (simp add: eq)
  show "osr_frame_' d' = fr" by (simp add: eq)
  show "d' = d\<lparr>osr_offset_' := off, osr_frame_' := fr\<rparr>" by (rule eq)
next
  show "(SetOptimizingForOsr b off fr d = Inl DCheckFailed) = (DEBUG b \<and> \<not> IsOptimizing d)"
    by (simp add: SetOptimizingForOsr_eq)
qed

theorem SetOptimizingForOsr_sets_both_witness:
  "IsOptimizing example_info
   \<and> SetOptimizingForOsr debug_build (BailoutAt 42) (Some 9) example_info
       = Inr (example_info\<lparr>osr_offset_' := BailoutAt 42, osr_frame_' := Some 9\<rparr>)
   \<and> \<not> IsOptimizing example_stub
   \<and> SetOptimizingForOsr debug_build (BailoutAt 42) (Some 9) example_stub = Inl DCheckFailed"
proof -
  have a: "IsOptimizing example_info"
    by (simp add: IsOptimizing_def example_info_fields)
  have b: "\<not> IsOptimizing example_stub"
    by (simp add: IsOptimizing_def example_stub_fields)
  from a SetOptimizingForOsr_sets_both
      [where d = example_info and b = debug_build and off = "BailoutAt 42" and fr = "Some 9"]
  have c: "SetOptimizingForOsr debug_build (BailoutAt 42) (Some 9) example_info
       = Inr (example_info\<lparr>osr_offset_' := BailoutAt 42, osr_frame_' := Some 9\<rparr>)"
    by blast
  from b build_fields(1) SetOptimizingForOsr_sets_both
      [where d = example_stub and b = debug_build and off = "BailoutAt 42" and fr = "Some 9"]
  have d: "SetOptimizingForOsr debug_build (BailoutAt 42) (Some 9) example_stub = Inl DCheckFailed"
    by blast
  from a b c d show ?thesis by blast
qed

text \<open>
  Claim C3, as amended. In a debug build the getter and the setter of a flag are
  rejected by their validity check whenever the flag is not valid for the descriptor (so
  for every code kind the flag is declared invalid for); where the check holds they
  read and set the bit. In a release build the check is compiled out and both calls
  proceed, valid or not.
\<close>

theorem invalid_flag_access_rejected_in_debug:
  "(DEBUG b \<and> \<not> FlagGetIsValid b F d \<longrightarrow> DEF_GETTER b F d = Inl DCheckFailed)
   \<and> (DEBUG b \<and> \<not> FlagSetIsValid b F d \<longrightarrow> DEF_SETTER b F d = Inl DCheckFailed)
   \<and> (FlagGetIsValid b F d \<longrightarrow> DEF_GETTER b F d = Inr (GetFlag F d))
   \<and> (FlagSetIsValid b F d \<longrightarrow> DEF_SETTER b F d = Inr (SetFlag F d))
   \<and> (\<not> DEBUG b \<longrightarrow>
        DEF_GETTER b F d = Inr (GetFlag F d) \<and> DEF_SETTER b F d = Inr (SetFlag F d))"
proof (intro conjI impI)
  assume "DEBUG b \<and> \<not> FlagGetIsValid b F d"
  then show "DEF_GETTER b F d = Inl DCheckFailed" by (simp add: DEF_GETTER_eq)
next
  assume "DEBUG b \<and> \<not> FlagSetIsValid b F d"
  then show "DEF_SETTER b F d = Inl DCheckFailed" by (simp add: DEF_SETTER_eq)
next
  assume "FlagGetIsValid b F d"
  then show "DEF_GETTER b F d = Inr (GetFlag F d)" by (simp add: DEF_GETTER_eq)
next
  assume "FlagSetIsValid b F d"
  then show "DEF_SETTER b F d = Inr (SetFlag F d)" by (simp add: DEF_SETTER_eq)
next
  assume "\<not> DEBUG b"
  then show "DEF_GETTER b F d = Inr (GetFlag F d)" by (simp add: DEF_GETTER_eq)
next
  assume "\<not> DEBUG b"
  then show "DEF_SETTER b F d = Inr (SetFlag F d)" by (simp add: DEF_SETTER_eq)
qed

theorem invalid_flag_access_rejected_in_debug_witness:
  "DEBUG debug_build
   \<and> \<not> FlagGetIsValid debug_build kWasmRuntimeExceptionSupport example_info
   \<and> \<not> FlagSetIsValid debug_build kWasmRuntimeExceptionSupport example_info
   \<and> DEF_GETTER debug_build kWasmRuntimeExceptionSupport example_info = Inl DCheckFailed
   \<and> DEF_SETTER debug_build kWasmRuntimeExceptionSupport example_info = Inl DCheckFailed
   \<and> FlagGetIsValid debug_build kInlining example_info
   \<and> DEF_GETTER debug_build kInlining example_info = Inr (GetFlag kInlining example_info)
   \<and> \<not> DEBUG release_build
   \<and> DEF_SETTER release_build kWasmRuntimeExceptionSupport example_info
       = Inr (SetFlag kWasmRuntimeExceptionSupport example_info)"
proof -
  have a: "\<not> IsWasm example_info" by (simp add: IsWasm_def example_info_fields)
  have b: "\<not> FlagGetIsValid debug_build kWasmRuntimeExceptionSupport example_info"
    and c: "\<not> FlagSetIsValid debug_build kWasmRuntimeExceptionSupport example_info"
    and d: "FlagGetIsValid debug_build kInlining example_info"
    using a by (simp_all add: build_fields)
  from b c d build_fields(1,2)
    invalid_flag_access_rejected_in_debug
      [where b = debug_build and F = kWasmRuntimeExceptionSupport and d = example_info]
    invalid_flag_access_rejected_in_debug
      [where b = debug_build and F = kInlining and d = example_info]
    invalid_flag_access_rejected_in_debug
      [where b = release_build and F = kWasmRuntimeExceptionSupport and d = example_info]
  show ?thesis by blast
qed

text \<open>
  Claim C3 as stated fails in a release build: with \<open>kWasmRuntimeExceptionSupport\<close>
  declared invalid outside Wasm compilations, its getter and setter on an optimizing
  descriptor succeed silently, and the setter raises the bit.
\<close>

theorem invalid_flag_access_release_counterexample:
  "code_kind_' example_info = OPTIMIZED_FUNCTION
   \<and> \<not> FlagGetIsValid release_build kWasmRuntimeExceptionSupport example_info
   \<and> \<not> FlagSetIsValid release_build kWasmRuntimeExceptionSupport example_info
   \<and> DEF_GETTER release_build kWasmRuntimeExceptionSupport example_info = Inr False
   \<and> DEF_SETTER release_build kWasmRuntimeExceptionSupport example_info
       = Inr (SetFlag kWasmRuntimeExceptionSupport example_info)
   \<and> GetFlag kWasmRuntimeExceptionSupport
        (SetFlag kWasmRuntimeExceptionSupport example_info)"
  by (simp add: DEF_GETTER_eq DEF_SETTER_eq build_fields IsWasm_def example_info_fields
      GetFlag_SetFlag)
    (simp add: GetFlag_def example_info_fields)

subsection \<open>The reference bundle\<close>

text \<open>
  Claim C2, as amended. Attaching a bundle succeeds on a descriptor that holds none, and
  whenever an attach succeeds, detaching right after it returns that very bundle and
  leaves the descriptor without one. A second detach with no attach in between is not
  rejected: it returns the null bundle and leaves the descriptor as it was.
\<close>

theorem attach_then_detach:
  "(ph_' d = None \<longrightarrow> set_persistent_handles b p d = Inr (d\<lparr>ph_' := p\<rparr>))
   \<and> (set_persistent_handles b p d = Inr d' \<longrightarrow>
        fst (DetachPersistentHandles d') = p
        \<and> ph_' (snd (DetachPersistentHandles d')) = None
        \<and> DetachPersistentHandles (snd (DetachPersistentHandles d'))
            = (None, snd (DetachPersistentHandles d')))"
proof (intro conjI impI)
  assume "ph_' d = None"
  then show "set_persistent_handles b p d = Inr (d\<lparr>ph_' := p\<rparr>)"
    by (simp add: set_persistent_handles_eq)
next
  assume "set_persistent_handles b p d = Inr d'"
  then have eq: "d' = d\<lparr>ph_' := p\<rparr>" by (rule set_persistent_handles_Inr)
  show "fst (DetachPersistentHandles d') = p"
    by (simp add: eq DetachPersistentHandles_def)
  show "ph_' (snd (DetachPersistentHandles d')) = None"
    by (simp add: DetachPersistentHandles_def)
  show "DetachPersistentHandles (snd (DetachPersistentHandles d'))
            = (None, snd (DetachPersistentHandles d'))"
    by (simp add: DetachPersistentHandles_def)
qed

theorem attach_then_detach_witness:
  "ph_' example_info = None
   \<and> set_persistent_handles debug_build (Some 7) example_info = Inr example_attached
   \<and> fst (DetachPersistentHandles example_attached) = Some 7
   \<and> DetachPersistentHandles (snd (DetachPersistentHandles example_attached))
       = (None, snd (DetachPersistentHandles example_attached))"
proof -
  have a: "ph_' example_info = None" by (simp add: example_info_fields)
  from a attach_then_detach
    [where d = example_info and b = debug_build and p = "Some 7" and d' = example_attached]
  show ?thesis unfolding example_attached_def by blast
qed

text \<open>
  Claim C2 as stated fails on its second half: \<open>DetachPersistentHandles\<close> has no
  assertion, so the second detach returns (the null pointer) like the first.
\<close>

theorem second_detach_not_rejected_counterexample:
  "set_persistent_handles debug_build (Some 7) example_info = Inr example_attached
   \<and> DetachPersistentHandles example_attached = (Some 7, example_info)
   \<and> DetachPersistentHandles example_info = (None, example_info)
   \<and> step debug_build Op_DetachPersistentHandles example_attached = Inr example_info
   \<and> step debug_build Op_DetachPersistentHandles example_info = Inr example_info"
proof -
  have a: "ph_' example_info = None" by (simp add: example_info_fields)
  have b: "example_info\<lparr>ph_' := None\<rparr> = example_info"
    by (simp add: example_info_def member_initializers_def)
  have c: "set_persistent_handles debug_build (Some 7) example_info = Inr example_attached"
    by (simp add: set_persistent_handles_eq a example_attached_def)
  have d: "DetachPersistentHandles example_attached = (Some 7, example_info)"
    by (simp add: DetachPersistentHandles_def example_attached_def b)
  have e: "DetachPersistentHandles example_info = (None, example_info)"
    by (simp add: DetachPersistentHandles_def a b)
  show ?thesis by (simp add: c d e)
qed

subsection \<open>Bailout and retry\<close>

lemma GetFlag_AbortOptimization:
  "GetFlag g (AbortOptimization r d) =
    (GetFlag g d \<or> (g = kDisableFutureOptimization \<and> IsOptimizing d))"
proof (cases "IsOptimizing d")
  case True
  then have "AbortOptimization r d = SetFlag kDisableFutureOptimization (d\<lparr>bailout_reason_' := r\<rparr>)"
    by (simp add: AbortOptimization_def IsOptimizing_def)
  moreover have "GetFlag g (d\<lparr>bailout_reason_' := r\<rparr>) = GetFlag g d"
    by (simp add: GetFlag_def)
  ultimately show ?thesis using True by (auto simp add: GetFlag_SetFlag)
next
  case False
  then have "AbortOptimization r d = d\<lparr>bailout_reason_' := r\<rparr>"
    by (simp add: AbortOptimization_def IsOptimizing_def)
  then show ?thesis using False by (simp add: GetFlag_def)
qed

lemma GetFlag_RetryOptimization: "GetFlag g (RetryOptimization r d) = GetFlag g d"
  by (simp add: RetryOptimization_def GetFlag_def)

lemma AbortOptimization_idem:
  "AbortOptimization r (AbortOptimization r d) = AbortOptimization r d"
  by (simp add: AbortOptimization_def IsOptimizing_def SetFlag_def Let_def)

lemma bailout_reason_AbortOptimization: "bailout_reason (AbortOptimization r d) = r"
  by (simp add: bailout_reason_def AbortOptimization_def SetFlag_def Let_def)

lemma bailout_reason_RetryOptimization: "bailout_reason (RetryOptimization r d) = r"
  by (simp add: bailout_reason_def RetryOptimization_def)

lemma step_flags:
  assumes "step b op d = Inr d'"
  shows "flags_' d' = flags_' d \<or> (\<exists>f. d' = SetFlag f d)
          \<or> (\<exists>r. d' = AbortOptimization r d)"
proof (cases op)
  case (Op_set_flag f)
  with assms have "d' = SetFlag f d" by (simp add: DEF_SETTER_Inr)
  then show ?thesis by blast
next
  case (Op_AbortOptimization r)
  with assms have "d' = AbortOptimization r d" by simp
  then show ?thesis by blast
next
  case (Op_RetryOptimization r)
  with assms have "d' = RetryOptimization r d" by simp
  then show ?thesis by (simp add: RetryOptimization_def)
next
  case (Op_SetOptimizingForOsr off fr)
  with assms have "d' = d\<lparr>osr_offset_' := off, osr_frame_' := fr\<rparr>"
    by (simp add: SetOptimizingForOsr_Inr)
  then show ?thesis by simp
next
  case (Op_set_persistent_handles p)
  with assms have "d' = d\<lparr>ph_' := p\<rparr>"
    by (simp add: set_persistent_handles_Inr)
  then show ?thesis by simp
next
  case (Op_AddInlinedFunction f bc p)
  with assms have "d' = snd (AddInlinedFunction f bc p d)" by simp
  then show ?thesis by (simp add: AddInlinedFunction_def Let_def)
next
  case (Op_set_builtin_index i)
  with assms have "d' = set_builtin_index i d" by simp
  then show ?thesis by (simp add: set_builtin_index_def)
next
  case (Op_SetPoisoningMitigationLevel l)
  with assms have "d' = SetPoisoningMitigationLevel l d" by simp
  then show ?thesis by (simp add: SetPoisoningMitigationLevel_def)
next
  case (Op_SetCode c)
  with assms have "d' = SetCode c d" by simp
  then show ?thesis by (simp add: SetCode_def)
next
  case (Op_SetWasmCompilationResult r)
  with assms have "d' = SetWasmCompilationResult r d" by simp
  then show ?thesis by (simp add: SetWasmCompilationResult_def)
next
  case Op_ReleaseWasmCompilationResult
  with assms have "d' = snd (ReleaseWasmCompilationResult d)" by simp
  then show ?thesis by (simp add: ReleaseWasmCompilationResult_def)
next
  case (Op_set_inlined_bytecode_size s)
  with assms have "d' = set_inlined_bytecode_size s d" by simp
  then show ?thesis by (simp add: set_inlined_bytecode_size_def)
next
  case (Op_set_trace_turbo_filename n)
  with assms have "d' = set_trace_turbo_filename n d" by simp
  then show ?thesis by (simp add: set_trace_turbo_filename_def)
next
  case (Op_set_profiler_data p)
  with assms have "d' = set_profiler_data p d" by simp
  then show ?thesis by (simp add: set_profiler_data_def)
next
  case Op_DetachPersistentHandles
  with assms have "d' = snd (DetachPersistentHandles d)" by simp
  then show ?thesis by (simp add: DetachPersistentHandles_def)
qed

lemma step_GetFlag:
  assumes "step b op d = Inr d'" and "GetFlag g d"
  shows "GetFlag g d'"
  using step_flags [OF assms(1)] assms(2)
  by (auto simp add: GetFlag_SetFlag GetFlag_AbortOptimization dest: GetFlag_flags)

lemma run_GetFlag:
  "run b ops d = Inr d' \<Longrightarrow> GetFlag g d \<Longrightarrow> GetFlag g d'"
proof (induction ops arbitrary: d)
  case Nil
  then show ?case by simp
next
  case (Cons op ops)
  then show ?case
    by (auto split: sum.splits dest: step_GetFlag)
qed

text \<open>
  Claim C1. After \<open>AbortOptimization r\<close> the bailout reason is \<open>r\<close> and, on an
  optimizing-function job, the disable-future-optimization flag is set; after
  \<open>RetryOptimization r\<close> the bailout reason is \<open>r\<close> and the flag is what it was.
\<close>

theorem bailout_reason_after_abort_and_retry:
  "bailout_reason (AbortOptimization r d) = r
   \<and> (IsOptimizing d \<longrightarrow> GetFlag kDisableFutureOptimization (AbortOptimization r d))
   \<and> bailout_reason (RetryOptimization r d) = r
   \<and> GetFlag kDisableFutureOptimization (RetryOptimization r d)
       = GetFlag kDisableFutureOptimization d"
proof (intro conjI impI)
  show "bailout_reason (AbortOptimization r d) = r"
    by (rule bailout_reason_AbortOptimization)
  show "bailout_reason (RetryOptimization r d) = r"
    by (rule bailout_reason_RetryOptimization)
  show "GetFlag kDisableFutureOptimization (RetryOptimization r d)
       = GetFlag kDisableFutureOptimization d"
    by (rule GetFlag_RetryOptimization)
next
  assume "IsOptimizing d"
  then show "GetFlag kDisableFutureOptimization (AbortOptimization r d)"
    by (simp add: GetFlag_AbortOptimization)
qed

theorem bailout_reason_after_abort_and_retry_witness:
  "IsOptimizing example_info
   \<and> \<not> GetFlag kDisableFutureOptimization example_info
   \<and> bailout_reason (AbortOptimization (kReason 3) example_info) = kReason 3
   \<and> GetFlag kDisableFutureOptimization (AbortOptimization (kReason 3) example_info)
   \<and> bailout_reason (RetryOptimization (kReason 3) example_info) = kReason 3
   \<and> \<not> GetFlag kDisableFutureOptimization (RetryOptimization (kReason 3) example_info)"
proof -
  have a: "IsOptimizing example_info"
    by (simp add: IsOptimizing_def example_info_fields)
  have b: "\<not> GetFlag kDisableFutureOptimization example_info"
    by (simp add: GetFlag_def example_info_fields)
  from a b bailout_reason_after_abort_and_retry [where r = "kReason 3" and d = example_info]
  show ?thesis by blast
qed

text \<open>
  Claim C5. The disable-future-optimization flag is monotonic: once it is set, it is
  still set after any sequence of calls that runs to its end. Aborting twice with the
  same reason gives the state that aborting once gives, and a retry afterwards leaves
  the flag set.
\<close>

theorem disable_future_optimization_monotonic:
  "(GetFlag kDisableFutureOptimization d \<and> run b ops d = Inr d'
        \<longrightarrow> GetFlag kDisableFutureOptimization d')
   \<and> AbortOptimization r (AbortOptimization r d) = AbortOptimization r d
   \<and> (IsOptimizing d \<longrightarrow>
        GetFlag kDisableFutureOptimization
          (RetryOptimization r' (AbortOptimization r (AbortOptimization r d))))
   \<and> (GetFlag kDisableFutureOptimization d \<longrightarrow>
        GetFlag kDisableFutureOptimization (RetryOptimization r' d))"
proof (intro conjI)
  show "GetFlag kDisableFutureOptimization d \<and> run b ops d = Inr d'
        \<longrightarrow> GetFlag kDisableFutureOptimization d'"
    using run_GetFlag by blast
  show "AbortOptimization r (AbortOptimization r d) = AbortOptimization r d"
    by (rule AbortOptimization_idem)
  show "IsOptimizing d \<longrightarrow>
        GetFlag kDisableFutureOptimization
          (RetryOptimization r' (AbortOptimization r (AbortOptimization r d)))"
    by (simp add: GetFlag_RetryOptimization AbortOptimization_idem GetFlag_AbortOptimization)
  show "GetFlag kDisableFutureOptimization d \<longrightarrow>
        GetFlag kDisableFutureOptimization (RetryOptimization r' d)"
    by (simp add: GetFlag_RetryOptimization)
qed

theorem disable_future_optimization_monotonic_witness:
  "IsOptimizing example_info
   \<and> GetFlag kDisableFutureOptimization (AbortOptimization (kReason 1) example_info)
   \<and> run debug_build
        [Op_RetryOptimization (kReason 2), Op_set_flag kInlining, Op_set_builtin_index 5]
        (AbortOptimization (kReason 1) example_info)
       = Inr (set_builtin_index 5 (SetFlag kInlining
               (RetryOptimization (kReason 2) (AbortOptimization (kReason 1) example_info))))
   \<and> GetFlag kDisableFutureOptimization
        (set_builtin_index 5 (SetFlag kInlining
          (RetryOptimization (kReason 2) (AbortOptimization (kReason 1) example_info))))
   \<and> GetFlag kDisableFutureOptimization
        (RetryOptimization (kReason 2)
          (AbortOptimization (kReason 1) (AbortOptimization (kReason 1) example_info)))"
proof -
  have a: "IsOptimizing example_info"
    by (simp add: IsOptimizing_def example_info_fields)
  have b: "GetFlag kDisableFutureOptimization (AbortOptimization (kReason 1) example_info)"
    using a by (simp add: GetFlag_AbortOptimization)
  have c: "run debug_build
        [Op_RetryOptimization (kReason 2), Op_set_flag kInlining, Op_set_builtin_index 5]
        (AbortOptimization (kReason 1) example_info)
       = Inr (set_builtin_index 5 (SetFlag kInlining
               (RetryOptimization (kReason 2) (AbortOptimization (kReason 1) example_info))))"
    by (simp add: DEF_SETTER_eq build_fields)
  from a b c disable_future_optimization_monotonic
    [where d = "AbortOptimization (kReason 1) example_info" and b = debug_build
       and ops = "[Op_RetryOptimization (kReason 2), Op_set_flag kInlining, Op_set_builtin_index 5]"
       and d' = "set_builtin_index 5 (SetFlag kInlining
               (RetryOptimization (kReason 2) (AbortOptimization (kReason 1) example_info)))"
       and r = "kReason 1" and r' = "kReason 2"]
    disable_future_optimization_monotonic
    [where d = example_info and b = debug_build and ops = "[]" and d' = example_info
       and r = "kReason 1" and r' = "kReason 2"]
  show ?thesis by blast
qed

subsection \<open>The inlining ledger\<close>

lemma static_cast_int_small: "n < 2 ^ 31 \<Longrightarrow> static_cast_int n = int n"
proof -
  assume "n < 2 ^ 31"
  then have "int n < 2 ^ 31" by (metis of_nat_less_iff of_nat_numeral of_nat_power)
  moreover have "- (2 ^ 31) \<le> int n" by simp
  ultimately have "signed_take_bit 31 (int n) = int n"
    by (rule_tac signed_take_bit_int_eq_self)
  then show ?thesis
    by (simp add: static_cast_int_def signed_of_nat)
qed

lemma upt_add_Suc: "[k ..< k + Suc n] = k # [Suc k ..< Suc k + n]"
  using upt_conv_Cons [of k "k + Suc n"] by (simp del: upt_Suc)

lemma AddInlinedFunction_small:
  assumes "length (inlined_functions_' d) < 2 ^ 31"
  shows "AddInlinedFunction f bc p d =
    (int (length (inlined_functions_' d)),
     d\<lparr>inlined_functions_' := inlined_functions_' d @
        [\<lparr> shared_info = f, bytecode_array = bc,
           position = \<lparr> pos = p, inlined_function_id = int (length (inlined_functions_' d)) \<rparr> \<rparr>]\<rparr>)"
  using static_cast_int_small [OF assms]
  by (simp add: AddInlinedFunction_def Let_def RegisterInlinedFunctionId_def
      InlinedFunctionHolder_new_def)

lemma add_all_small:
  "length (inlined_functions_' d) + length calls \<le> 2 ^ 31 \<Longrightarrow>
    add_all calls d =
      (map int [length (inlined_functions_' d) ..< length (inlined_functions_' d) + length calls],
       d\<lparr>inlined_functions_' := inlined_functions_' d
            @ expected_holders (length (inlined_functions_' d)) calls\<rparr>)"
proof (induction calls arbitrary: d)
  case Nil
  then show ?case by simp
next
  case (Cons c calls)
  obtain f bc p where c: "c = (f, bc, p)" by (cases c) auto
  let ?k = "length (inlined_functions_' d)"
  let ?h = "\<lparr> shared_info = f, bytecode_array = bc,
           position = \<lparr> pos = p, inlined_function_id = int ?k \<rparr> \<rparr>"
  let ?d = "d\<lparr>inlined_functions_' := inlined_functions_' d @ [?h]\<rparr>"
  from Cons.prems have small: "?k < 2 ^ 31" by simp
  have one: "AddInlinedFunction f bc p d = (int ?k, ?d)"
    by (rule AddInlinedFunction_small [OF small])
  have len: "length (inlined_functions_' ?d) = Suc ?k" by simp
  from Cons.prems have "length (inlined_functions_' ?d) + length calls \<le> 2 ^ 31"
    by simp
  from Cons.IH [OF this]
  have rest: "add_all calls ?d =
      (map int [Suc ?k ..< Suc ?k + length calls],
       ?d\<lparr>inlined_functions_' := inlined_functions_' ?d @ expected_holders (Suc ?k) calls\<rparr>)"
    by (simp only: len)
  have upt: "[?k ..< ?k + length (c # calls)] = ?k # [Suc ?k ..< Suc ?k + length calls]"
    using upt_add_Suc [of ?k "length calls"] by (simp del: upt_Suc)
  have run: "add_all (c # calls) d =
      (int ?k # map int [Suc ?k ..< Suc ?k + length calls],
       ?d\<lparr>inlined_functions_' := inlined_functions_' ?d @ expected_holders (Suc ?k) calls\<rparr>)"
    by (simp only: c add_all.simps one rest Let_def prod.case)
  have ledger: "?d\<lparr>inlined_functions_' := inlined_functions_' ?d @ expected_holders (Suc ?k) calls\<rparr>
      = d\<lparr>inlined_functions_' := inlined_functions_' d @ expected_holders ?k (c # calls)\<rparr>"
    by (simp add: c)
  have ids: "int ?k # map int [Suc ?k ..< Suc ?k + length calls]
      = map int [?k ..< ?k + length (c # calls)]"
    by (simp only: upt list.map)
  show ?case by (simp only: run ledger ids)
qed

lemma length_expected_holders: "length (expected_holders k calls) = length calls"
  by (induction k calls rule: expected_holders.induct) simp_all

lemma ids_expected_holders:
  "map (\<lambda>h. inlined_function_id (position h)) (expected_holders k calls)
    = map int [k ..< k + length calls]"
proof (induction k calls rule: expected_holders.induct)
  case (1 k)
  then show ?case by simp
next
  case (2 k f bc p calls)
  have "[k ..< k + length ((f, bc, p) # calls)] = k # [Suc k ..< Suc k + length calls]"
    using upt_add_Suc [of k "length calls"] by (simp del: upt_Suc)
  with 2 show ?case by (simp del: upt_Suc)
qed

lemma ledger_AddInlinedFunction:
  "inlined_functions_' (snd (AddInlinedFunction f bc p d)) =
    inlined_functions_' d @
      [RegisterInlinedFunctionId (length (inlined_functions_' d))
         (InlinedFunctionHolder_new f bc p)]"
  by (simp add: AddInlinedFunction_def Let_def)

lemma add_all_append_only:
  "take (length (inlined_functions_' d)) (inlined_functions_' (snd (add_all calls d)))
      = inlined_functions_' d
   \<and> length (inlined_functions_' (snd (add_all calls d)))
      = length (inlined_functions_' d) + length calls"
proof (induction calls arbitrary: d)
  case Nil
  then show ?case by simp
next
  case (Cons c calls)
  obtain f bc p where c: "c = (f, bc, p)" by (cases c) auto
  let ?d = "snd (AddInlinedFunction f bc p d)"
  let ?h = "RegisterInlinedFunctionId (length (inlined_functions_' d))
         (InlinedFunctionHolder_new f bc p)"
  have one: "inlined_functions_' ?d = inlined_functions_' d @ [?h]"
    by (rule ledger_AddInlinedFunction)
  have run: "snd (add_all (c # calls) d) = snd (add_all calls ?d)"
    by (simp add: c split_beta Let_def)
  from Cons.IH [of ?d]
  have ih1: "take (length (inlined_functions_' ?d)) (inlined_functions_' (snd (add_all calls ?d)))
      = inlined_functions_' ?d"
    and ih2: "length (inlined_functions_' (snd (add_all calls ?d)))
      = length (inlined_functions_' ?d) + length calls"
    by simp_all
  have "take (length (inlined_functions_' d)) (inlined_functions_' (snd (add_all calls ?d)))
      = take (length (inlined_functions_' d))
          (take (length (inlined_functions_' ?d)) (inlined_functions_' (snd (add_all calls ?d))))"
    by (simp add: one min_def)
  also have "\<dots> = take (length (inlined_functions_' d)) (inlined_functions_' ?d)"
    by (simp only: ih1)
  also have "\<dots> = inlined_functions_' d"
    by (simp add: one)
  finally have "take (length (inlined_functions_' d))
      (inlined_functions_' (snd (add_all (c # calls) d))) = inlined_functions_' d"
    by (simp only: run)
  moreover have "length (inlined_functions_' (snd (add_all (c # calls) d)))
      = length (inlined_functions_' d) + length (c # calls)"
    by (simp only: run ih2 one) simp
  ultimately show ?case by blast
qed

lemma fst_AddInlinedFunction:
  "fst (AddInlinedFunction f bc p d) = static_cast_int (length (inlined_functions_' d))"
  by (simp add: AddInlinedFunction_def Let_def)

lemma static_cast_int_wraps: "static_cast_int 2147483648 = - 2147483648"
  by (simp add: static_cast_int_def)

lemma length_example_full_ledger:
  "length (inlined_functions_' example_full_ledger) = 2147483648"
proof -
  have "length (inlined_functions_' example_full_ledger)
      = length (inlined_functions_' example_info)
        + length (replicate 2147483648 (None :: Handle, None :: Handle, 0 :: SourcePosition))"
    unfolding example_full_ledger_def using add_all_append_only by blast
  then show ?thesis
    by (simp only: example_info_fields length_replicate list.size add_0)
qed

text \<open>
  Claim C6, as amended. Ids are C++ \<open>int\<close>s, so the statement is for ledgers that stay
  within \<open>2 ^ 31\<close> holders. A call on a ledger of \<open>k\<close> holders appends exactly one holder,
  gives it the id \<open>k\<close> and returns \<open>k\<close>. Successive calls return \<open>k\<close>, \<open>k + 1\<close>, and so on
  without gaps (from \<open>0\<close> on a descriptor whose ledger is empty), and the ledger
  afterwards is the old one followed by the new holders in call order, whose ids are the
  ids returned. Whatever its size, the ledger is append-only: the old holders stay in
  place and each call adds one.
\<close>

theorem AddInlinedFunction_sequential_ids:
  "(length (inlined_functions_' d) < 2 ^ 31 \<longrightarrow>
      AddInlinedFunction f bc p d =
        (int (length (inlined_functions_' d)),
         d\<lparr>inlined_functions_' := inlined_functions_' d @
            [\<lparr> shared_info = f, bytecode_array = bc,
               position = \<lparr> pos = p,
                 inlined_function_id = int (length (inlined_functions_' d)) \<rparr> \<rparr>]\<rparr>))
   \<and> (length (inlined_functions_' d) + length calls \<le> 2 ^ 31 \<longrightarrow>
      add_all calls d =
        (map int [length (inlined_functions_' d)
                   ..< length (inlined_functions_' d) + length calls],
         d\<lparr>inlined_functions_' := inlined_functions_' d
              @ expected_holders (length (inlined_functions_' d)) calls\<rparr>))
   \<and> length (expected_holders k calls) = length calls
   \<and> map (\<lambda>h. inlined_function_id (position h)) (expected_holders k calls)
       = map int [k ..< k + length calls]
   \<and> (inlined_functions_' d = [] \<and> length calls \<le> 2 ^ 31 \<longrightarrow>
        fst (add_all calls d) = map int [0 ..< length calls])
   \<and> take (length (inlined_functions_' d)) (inlined_functions_' (snd (add_all calls d)))
       = inlined_functions_' d
   \<and> length (inlined_functions_' (snd (add_all calls d)))
       = length (inlined_functions_' d) + length calls"
proof (intro conjI impI)
  assume "length (inlined_functions_' d) < 2 ^ 31"
  then show "AddInlinedFunction f bc p d =
        (int (length (inlined_functions_' d)),
         d\<lparr>inlined_functions_' := inlined_functions_' d @
            [\<lparr> shared_info = f, bytecode_array = bc,
               position = \<lparr> pos = p,
                 inlined_function_id = int (length (inlined_functions_' d)) \<rparr> \<rparr>]\<rparr>)"
    by (rule AddInlinedFunction_small)
next
  assume "length (inlined_functions_' d) + length calls \<le> 2 ^ 31"
  then show "add_all calls d =
        (map int [length (inlined_functions_' d)
                   ..< length (inlined_functions_' d) + length calls],
         d\<lparr>inlined_functions_' := inlined_functions_' d
              @ expected_holders (length (inlined_functions_' d)) calls\<rparr>)"
    by (rule add_all_small)
next
  show "length (expected_holders k calls) = length calls"
    by (rule length_expected_holders)
  show "map (\<lambda>h. inlined_function_id (position h)) (expected_holders k calls)
       = map int [k ..< k + length calls]"
    by (rule ids_expected_holders)
next
  assume a: "inlined_functions_' d = [] \<and> length calls \<le> 2 ^ 31"
  then have "length (inlined_functions_' d) + length calls \<le> 2 ^ 31" by simp
  from add_all_small [OF this] a
  show "fst (add_all calls d) = map int [0 ..< length calls]" by simp
next
  show "take (length (inlined_functions_' d)) (inlined_functions_' (snd (add_all calls d)))
       = inlined_functions_' d"
    using add_all_append_only by blast
  show "length (inlined_functions_' (snd (add_all calls d)))
       = length (inlined_functions_' d) + length calls"
    using add_all_append_only by blast
qed

theorem AddInlinedFunction_sequential_ids_witness:
  "inlined_functions_' example_info = []
   \<and> fst (add_all [(Some 20, Some 21, 100), (Some 22, Some 23, 200), (Some 24, Some 25, 300)]
        example_info) = [0, 1, 2]
   \<and> map (\<lambda>h. inlined_function_id (position h))
        (expected_holders 0
          [(Some 20, Some 21, 100), (Some 22, Some 23, 200), (Some 24, Some 25, 300)])
       = [0, 1, 2]
   \<and> fst (AddInlinedFunction (Some 20) (Some 21) 100 example_info) = 0"
proof -
  let ?calls = "[(Some 20, Some 21, 100), (Some 22, Some 23, 200), (Some 24, Some 25, 300)]
    :: (Handle \<times> Handle \<times> SourcePosition) list"
  have a: "inlined_functions_' example_info = []" by (simp add: example_info_fields)
  have b: "length ?calls \<le> 2 ^ 31" by simp
  have c: "length (inlined_functions_' example_info) < 2 ^ 31" by (simp add: a)
  have u: "map int [0 ..< length ?calls] = [0, 1, 2]" by code_simp
  note t = AddInlinedFunction_sequential_ids
    [where d = example_info and calls = ?calls and k = 0 and f = "Some 20" and bc = "Some 21"
       and p = 100]
  from t a b have "fst (add_all ?calls example_info) = map int [0 ..< length ?calls]"
    by blast
  then have d: "fst (add_all ?calls example_info) = [0, 1, 2]" by (simp only: u)
  from t have "map (\<lambda>h. inlined_function_id (position h)) (expected_holders 0 ?calls)
       = map int [0 ..< 0 + length ?calls]" by blast
  then have e: "map (\<lambda>h. inlined_function_id (position h)) (expected_holders 0 ?calls)
       = [0, 1, 2]" by (simp only: u add_0)
  from t c have "fst (AddInlinedFunction (Some 20) (Some 21) 100 example_info)
      = int (length (inlined_functions_' example_info))" by simp
  then have f: "fst (AddInlinedFunction (Some 20) (Some 21) 100 example_info) = 0"
    by (simp add: a)
  from a d e f show ?thesis by blast
qed

text \<open>
  Claim C6 as stated fails past the range of \<open>int\<close>: after \<open>2 ^ 31\<close> calls on a fresh
  descriptor the ledger holds \<open>2 ^ 31\<close> holders, and the next call, the one numbered
  \<open>2 ^ 31\<close>, returns \<open>- 2 ^ 31\<close> and gives the new holder that id.
\<close>

theorem AddInlinedFunction_id_wraps_counterexample:
  "inlined_functions_' example_info = []
   \<and> length (inlined_functions_' example_full_ledger) = 2147483648
   \<and> fst (AddInlinedFunction (Some 20) (Some 21) 100 example_full_ledger) = - 2147483648
   \<and> inlined_function_id (position (last (inlined_functions_'
        (snd (AddInlinedFunction (Some 20) (Some 21) 100 example_full_ledger)))))
       = - 2147483648"
proof -
  have a: "inlined_functions_' example_info = []" by (simp add: example_info_fields)
  have b: "length (inlined_functions_' example_full_ledger) = 2147483648"
    by (rule length_example_full_ledger)
  have c: "fst (AddInlinedFunction (Some 20) (Some 21) 100 example_full_ledger)
      = - 2147483648"
    by (simp only: fst_AddInlinedFunction b static_cast_int_wraps)
  have "inlined_function_id (position (last (inlined_functions_'
        (snd (AddInlinedFunction (Some 20) (Some 21) 100 example_full_ledger)))))
      = static_cast_int (length (inlined_functions_' example_full_ledger))"
    by (simp add: ledger_AddInlinedFunction RegisterInlinedFunctionId_def)
  then have d: "inlined_function_id (position (last (inlined_functions_'
        (snd (AddInlinedFunction (Some 20) (Some 21) 100 example_full_ledger)))))
      = - 2147483648"
    by (simp only: b static_cast_int_wraps)
  from a b c d show ?thesis by blast
qed

subsection \<open>Optimization ids\<close>

lemma optimization_id_ConfigureFlags:
  "optimization_id_' (ConfigureFlags config d) = optimization_id_' d"
  unfolding ConfigureFlags_def
  by (induction config arbitrary: d) (simp_all add: SetFlag_def)

lemma code_kind_ConfigureFlags:
  "code_kind_' (ConfigureFlags config d) = code_kind_' d"
  unfolding ConfigureFlags_def
  by (induction config arbitrary: d) (simp_all add: SetFlag_def)

text \<open>A descriptor constructed for stub compilation holds the sentinel.\<close>

lemma new_for_stub_id:
  "optimization_id_' (new_for_stub config debug_name zone code_kind) = - 1"
  by (simp add: new_for_stub_def optimization_id_ConfigureFlags member_initializers_def
      kNoOptimizationId_def)

lemma optimization_id_eq:
  "optimization_id b d =
    (if DEBUG b \<and> \<not> IsOptimizing d then Inl DCheckFailed else Inr (optimization_id_' d))"
  by (simp add: optimization_id_def DCHECK_def)

lemma osr_offset_ConfigureFlags:
  "osr_offset_' (ConfigureFlags config d) = osr_offset_' d"
  unfolding ConfigureFlags_def
  by (induction config arbitrary: d) (simp_all add: SetFlag_def)

text \<open>
  The constructor for stub compilation does not make an OSR compile: deriving the flags
  leaves the OSR offset at its default.
\<close>

lemma constructed_is_not_osr:
  "\<not> is_osr (new_for_stub config debug_name zone code_kind)"
  by (simp add: is_osr_def IsNone_def new_for_stub_def osr_offset_ConfigureFlags
      member_initializers_def)

text \<open>
  The getter \<open>optimization_id\<close> asserts \<open>IsOptimizing\<close>: a debug build stops it on a
  descriptor that is not optimizing, so there the sentinel is never read through it.
\<close>

lemma optimization_id_getter_asserts:
  "(IsOptimizing d \<longrightarrow> optimization_id b d = Inr (optimization_id_' d))
   \<and> (\<not> DEBUG b \<longrightarrow> optimization_id b d = Inr (optimization_id_' d))
   \<and> (DEBUG b \<and> \<not> IsOptimizing d \<longrightarrow> optimization_id b d = Inl DCheckFailed)"
  by (simp add: optimization_id_eq)

subsection \<open>Constant members\<close>

text \<open>
  \<open>code_kind_\<close>, \<open>zone_\<close> and \<open>optimization_id_\<close> are \<open>const\<close> members: no mutator the
  header defines inline changes them, so the mode of a descriptor is fixed for its
  lifetime.
\<close>

lemma step_inline_const_members:
  assumes "step b op d = Inr d'" and "defined_inline op"
  shows "code_kind_' d' = code_kind_' d \<and> zone_' d' = zone_' d
          \<and> optimization_id_' d' = optimization_id_' d"
proof (cases op)
  case (Op_set_flag f)
  with assms have "d' = SetFlag f d" by (simp add: DEF_SETTER_Inr)
  then show ?thesis by (simp add: SetFlag_def)
next
  case (Op_SetOptimizingForOsr off fr)
  with assms have "d' = d\<lparr>osr_offset_' := off, osr_frame_' := fr\<rparr>"
    by (simp add: SetOptimizingForOsr_Inr)
  then show ?thesis by simp
next
  case (Op_set_builtin_index i)
  with assms have "d' = set_builtin_index i d" by simp
  then show ?thesis by (simp add: set_builtin_index_def)
next
  case (Op_SetPoisoningMitigationLevel l)
  with assms have "d' = SetPoisoningMitigationLevel l d" by simp
  then show ?thesis by (simp add: SetPoisoningMitigationLevel_def)
next
  case (Op_SetCode c)
  with assms have "d' = SetCode c d" by simp
  then show ?thesis by (simp add: SetCode_def)
next
  case (Op_set_inlined_bytecode_size s)
  with assms have "d' = set_inlined_bytecode_size s d" by simp
  then show ?thesis by (simp add: set_inlined_bytecode_size_def)
next
  case (Op_set_trace_turbo_filename n)
  with assms have "d' = set_trace_turbo_filename n d" by simp
  then show ?thesis by (simp add: set_trace_turbo_filename_def)
next
  case (Op_set_profiler_data p)
  with assms have "d' = set_profiler_data p d" by simp
  then show ?thesis by (simp add: set_profiler_data_def)
next
  case Op_DetachPersistentHandles
  with assms have "d' = snd (DetachPersistentHandles d)" by simp
  then show ?thesis by (simp add: DetachPersistentHandles_def)
qed (use assms in simp_all)

end
